theory Spec2Isabelle
  imports
    Main
    "HOL-Library.Char_ord"
    "HOL-Library.List_Lexorder"
    "HOL-Library.AList"
    "HOL-Library.Multiset"
    "HOL-Library.Sublist"
begin

section \<open>Findit: the lost-and-found server's handlers over the key-value store\<close>

text \<open>
  The server (the Hono application with the routes under \<open>/make-server-fff7703a\<close>) keeps all
  of its data in one key-value table, reached through \<open>kv.set\<close>, \<open>kv.get\<close> and
  \<open>kv.getByPrefix\<close>. Every key is a literal namespace followed by an identifier:
  \<open>user:\<close>, \<open>item:\<close>, \<open>conversation:\<close>, \<open>message:\<close>, \<open>userItem:\<close> and
  \<open>userConversation:\<close>. No namespace is a prefix of another, each is written by one handler
  with one shape of value, and every read names its namespace literally. The store is
  therefore a record with one table per namespace; a table is keyed by the rest of the key
  (what follows the namespace), so that the prefix scans of the source are prefix scans here.

  A point in time is the clock's reading in milliseconds since the epoch. The source stores
  \<open>new Date().toISOString()\<close> and compares \<open>new Date(s).getTime()\<close>, which gives the
  reading back. Each \<open>new Date()\<close>, \<open>Date.now()\<close> and \<open>crypto.randomUUID()\<close> of a
  handler is one argument of its model, in the order the handler evaluates them.

  The \<open>requireAuth\<close> middleware has run before a handler: \<open>userId\<close> is the authenticated
  caller. The \<open>catch\<close> blocks (status 500) are reached only when the store itself throws,
  which the model of the store does not do.
\<close>

subsection \<open>Data\<close>

record user =
  user_id :: string
  user_email :: string
  user_name :: string
  user_createdAt :: nat

record item =
  item_id :: string
  item_type :: string
  item_category :: string
  item_title :: string
  item_description :: string
  item_location :: string
  item_date :: string
  item_imageUrl :: "string option"
  item_userId :: string
  item_status :: string
  item_createdAt :: nat

record conversation =
  conv_id :: string
  conv_itemId :: string
  conv_participants :: "string list"
  conv_createdAt :: nat
  conv_lastMessageAt :: nat

record message =
  msg_id :: string
  msg_conversationId :: string
  msg_senderId :: string
  msg_text :: string
  msg_createdAt :: nat

text \<open>What \<open>GET /messages/:conversationId\<close> returns for a message: \<open>{...msg, senderName}\<close>.\<close>

record named_message = message +
  senderName :: string

text \<open>What \<open>GET /conversations\<close> returns for a conversation: \<open>{...conv, item, otherUser}\<close>.\<close>

record joined_conversation = conversation +
  conv_item :: "item option"
  conv_otherUser :: "user option"

type_synonym 'v table = "(string \<times> 'v) list"

record store =
  users :: "user table"
  items :: "item table"
  conversations :: "conversation table"
  messages :: "message table"
  userItem :: "string table"
  userConversation :: "string table"

text \<open>A failed request: the HTTP status and the \<open>error\<close> string of the JSON body.\<close>

type_synonym error = "nat \<times> string"

subsection \<open>The key-value store adapter\<close>

text \<open>
  Modelled from the spec: \<open>kv_store.tsx\<close> (the module behind \<open>kv.get\<close>, \<open>kv.set\<close> and
  \<open>kv.getByPrefix\<close>) is not among the sources. Section 4.1: \<open>get\<close> returns the stored
  value or a not-found signal and never throws for a missing key.
\<close>

definition kv_get :: "string \<Rightarrow> 'v table \<Rightarrow> 'v option" where
  "kv_get k t = map_of t k"

text \<open>
  Modelled from the spec: \<open>kv_store.tsx\<close> is not among the sources. Section 4.1: \<open>set\<close>
  is an upsert that overwrites the prior value; the write is visible to every later read.
\<close>

definition kv_set :: "string \<Rightarrow> 'v \<Rightarrow> 'v table \<Rightarrow> 'v table" where
  "kv_set k v t = AList.update k v t"

text \<open>
  Modelled from the spec: \<open>kv_store.tsx\<close> is not among the sources. Section 4.1:
  \<open>getByPrefix\<close> returns all values (not keys) whose key starts with the prefix, in an
  order the store does not specify. The order is the argument \<open>scan\<close>: the rearrangement
  the store applies to the matching rows before it returns them.
\<close>

definition kv_getByPrefix :: "('v table \<Rightarrow> 'v table) \<Rightarrow> string \<Rightarrow> 'v table \<Rightarrow> 'v list" where
  "kv_getByPrefix scan p t = map snd (scan (filter (\<lambda>(k, v). prefix p k) t))"

subsection \<open>PATCH /items/:id/status\<close>

definition updateItemStatus ::
  "string \<Rightarrow> string \<Rightarrow> string \<Rightarrow> store \<Rightarrow> (error + item) \<times> store" where
  "updateItemStatus userId itemId status s =
     (case kv_get itemId (items s) of
        None \<Rightarrow> (Inl (404, ''Item not found''), s)
      | Some item \<Rightarrow>
          if item_userId item \<noteq> userId
          then (Inl (403, ''Unauthorized - Not item owner''), s)
          else
            let updatedItem = item\<lparr>item_status := status\<rparr>
            in (Inr updatedItem, s\<lparr>items := kv_set itemId updatedItem (items s)\<rparr>))"

subsection \<open>POST /conversations\<close>

text \<open>
  \<open>now1\<close> and \<open>now2\<close> are the two \<open>new Date()\<close> of the conversation literal, for
  \<open>createdAt\<close> and for \<open>lastMessageAt\<close>. The default \<open>sort()\<close> of an array of strings
  is ascending by code units.
\<close>

definition startConversation ::
  "string \<Rightarrow> string \<Rightarrow> nat \<Rightarrow> nat \<Rightarrow> store \<Rightarrow> (error + conversation) \<times> store" where
  "startConversation userId itemId now1 now2 s =
     (case kv_get itemId (items s) of
        None \<Rightarrow> (Inl (404, ''Item not found''), s)
      | Some item \<Rightarrow>
          let participants = sort [userId, item_userId item];
              conversationId = (participants ! 0) @ ''_'' @ (participants ! 1) @ ''_'' @ itemId
          in (case kv_get conversationId (conversations s) of
               Some existing \<Rightarrow> (Inr existing, s)
             | None \<Rightarrow>
                 let conversation =
                       \<lparr>conv_id = conversationId, conv_itemId = itemId,
                        conv_participants = participants,
                        conv_createdAt = now1, conv_lastMessageAt = now2\<rparr>;
                     s1 = s\<lparr>conversations :=
                              kv_set conversationId conversation (conversations s)\<rparr>;
                     s2 = s1\<lparr>userConversation :=
                              kv_set (userId @ '':'' @ conversationId) conversationId
                                (userConversation s1)\<rparr>;
                     s3 = s2\<lparr>userConversation :=
                              kv_set (item_userId item @ '':'' @ conversationId) conversationId
                                (userConversation s2)\<rparr>
                 in (Inr conversation, s3)))"

subsection \<open>POST /messages\<close>

text \<open>The decimal numeral of a clock reading, as a template literal prints a number.\<close>

fun decimal :: "nat \<Rightarrow> string" where
  "decimal n =
     (if n < 10 then [char_of (48 + n)]
      else decimal (n div 10) @ [char_of (48 + n mod 10)])"

declare decimal.simps [simp del]

text \<open>
  \<open>dateNow\<close> is the \<open>Date.now()\<close> of the message id, \<open>uuid\<close> its
  \<open>crypto.randomUUID()\<close>, \<open>now\<close> the \<open>new Date()\<close> of \<open>createdAt\<close>.
\<close>

definition send ::
  "string \<Rightarrow> string \<Rightarrow> string \<Rightarrow> nat \<Rightarrow> string \<Rightarrow> nat \<Rightarrow> store \<Rightarrow> (error + message) \<times> store" where
  "send userId conversationId text dateNow uuid now s =
     (case kv_get conversationId (conversations s) of
        None \<Rightarrow> (Inl (404, ''Conversation not found''), s)
      | Some conversation \<Rightarrow>
          if userId \<notin> set (conv_participants conversation)
          then (Inl (403, ''Unauthorized - Not a participant''), s)
          else
            let messageId = conversationId @ '':'' @ decimal dateNow @ '':'' @ uuid;
                message =
                  \<lparr>msg_id = messageId, msg_conversationId = conversationId,
                   msg_senderId = userId, msg_text = text, msg_createdAt = now\<rparr>;
                s1 = s\<lparr>messages := kv_set messageId message (messages s)\<rparr>;
                s2 = s1\<lparr>conversations :=
                         kv_set conversationId
                           (conversation\<lparr>conv_lastMessageAt := msg_createdAt message\<rparr>)
                           (conversations s1)\<rparr>
            in (Inr message, s2))"

subsection \<open>GET /messages/:conversationId\<close>

text \<open>The body of the \<open>map\<close>: \<open>{...msg, senderName: user?.name || 'Unknown'}\<close>. An empty
  name is falsy, so it gives the placeholder too.\<close>

definition withSenderName :: "user table \<Rightarrow> message \<Rightarrow> named_message" where
  "withSenderName us msg =
     \<lparr>msg_id = msg_id msg, msg_conversationId = msg_conversationId msg,
      msg_senderId = msg_senderId msg, msg_text = msg_text msg,
      msg_createdAt = msg_createdAt msg,
      senderName =
        (case kv_get (msg_senderId msg) us of
           None \<Rightarrow> ''Unknown''
         | Some u \<Rightarrow> if user_name u = [] then ''Unknown'' else user_name u)\<rparr>"

text \<open>The comparator \<open>getTime(a.createdAt) - getTime(b.createdAt)\<close> looks at \<open>createdAt\<close>
  only; \<open>Array.prototype.sort\<close> is stable, as \<open>sort_key\<close> is.\<close>

definition listMessages ::
  "(message table \<Rightarrow> message table) \<Rightarrow> string \<Rightarrow> string \<Rightarrow> store \<Rightarrow> error + named_message list" where
  "listMessages scan userId conversationId s =
     (case kv_get conversationId (conversations s) of
        None \<Rightarrow> Inl (404, ''Conversation not found'')
      | Some conversation \<Rightarrow>
          if userId \<notin> set (conv_participants conversation)
          then Inl (403, ''Unauthorized - Not a participant'')
          else
            let allMessages = kv_getByPrefix scan (conversationId @ '':'') (messages s);
                msgs = sort_key msg_createdAt allMessages
            in Inr (map (withSenderName (users s)) msgs))"

subsection \<open>GET /conversations\<close>

text \<open>
  The body of the \<open>map\<close>; \<open>None\<close> is the \<open>null\<close> of a conversation that does not
  resolve. When \<open>find\<close> finds no other participant, \<open>otherUserId\<close> is \<open>undefined\<close>
  and the template literal reads the key \<open>user:undefined\<close>.
\<close>

definition joinConversation :: "store \<Rightarrow> string \<Rightarrow> string \<Rightarrow> joined_conversation option" where
  "joinConversation s userId conversationId =
     (case kv_get conversationId (conversations s) of
        None \<Rightarrow> None
      | Some conv \<Rightarrow>
          let it = kv_get (conv_itemId conv) (items s);
              otherUserId =
                (case find (\<lambda>i. i \<noteq> userId) (conv_participants conv) of
                   None \<Rightarrow> ''undefined''
                 | Some i \<Rightarrow> i);
              other = kv_get otherUserId (users s)
          in Some \<lparr>conv_id = conv_id conv, conv_itemId = conv_itemId conv,
                   conv_participants = conv_participants conv,
                   conv_createdAt = conv_createdAt conv,
                   conv_lastMessageAt = conv_lastMessageAt conv,
                   conv_item = it, conv_otherUser = other\<rparr>)"

text \<open>The comparator \<open>getTime(b.lastMessageAt) - getTime(a.lastMessageAt)\<close>: descending,
  stable.\<close>

definition listConversations ::
  "(string table \<Rightarrow> string table) \<Rightarrow> string \<Rightarrow> store \<Rightarrow> joined_conversation list" where
  "listConversations scan userId s =
     (let conversationIds = kv_getByPrefix scan (userId @ '':'') (userConversation s);
          convs = map (joinConversation s userId) conversationIds;
          validConversations = map the (filter (\<lambda>c. c \<noteq> None) convs)
      in sort_key (\<lambda>c. - int (conv_lastMessageAt c)) validConversations)"

subsection \<open>Sequences of sends on one conversation\<close>

text \<open>One call of \<open>POST /messages\<close>: the caller, the text, and what the handler reads from
  the clock and the random source.\<close>

record send_call =
  call_userId :: string
  call_text :: string
  call_dateNow :: nat
  call_uuid :: string
  call_now :: nat

text \<open>The message a call persists when it succeeds.\<close>

definition sent_message :: "string \<Rightarrow> send_call \<Rightarrow> message" where
  "sent_message conversationId r =
     \<lparr>msg_id = conversationId @ '':'' @ decimal (call_dateNow r) @ '':'' @ call_uuid r,
      msg_conversationId = conversationId, msg_senderId = call_userId r,
      msg_text = call_text r, msg_createdAt = call_now r\<rparr>"

text \<open>The calls of a list, one after the other, each on the store the previous one left.\<close>

fun sends :: "string \<Rightarrow> send_call list \<Rightarrow> store \<Rightarrow> store" where
  "sends conversationId [] s = s"
| "sends conversationId (r # rs) s =
     sends conversationId rs
       (snd (send (call_userId r) conversationId (call_text r) (call_dateNow r)
               (call_uuid r) (call_now r) s))"

text \<open>The rows that the calls of a list write to the message table, in the order of the
  calls.\<close>

definition message_rows :: "string \<Rightarrow> send_call list \<Rightarrow> message table" where
  "message_rows conversationId rs =
     map (\<lambda>r. (msg_id (sent_message conversationId r), sent_message conversationId r)) rs"

subsection \<open>The conversation id of a caller, an owner and an item\<close>

text \<open>The id that \<open>POST /conversations\<close> derives (the two lines under the comment
  ``Create conversation ID''), named so that the properties can speak of it.\<close>

definition conversationIdFor :: "string \<Rightarrow> string \<Rightarrow> string \<Rightarrow> string" where
  "conversationIdFor userId ownerId itemId =
     (let participants = sort [userId, ownerId]
      in (participants ! 0) @ ''_'' @ (participants ! 1) @ ''_'' @ itemId)"

subsection \<open>A small board for the examples\<close>

text \<open>Ann (\<open>A\<close>) is registered; the owner \<open>B\<close> of the backpack has no profile row.\<close>

definition ann :: user where
  "ann = \<lparr>user_id = ''A'', user_email = ''ann@campus.edu'', user_name = ''Ann'',
          user_createdAt = 100\<rparr>"

definition backpack :: item where
  "backpack =
     \<lparr>item_id = ''i1'', item_type = ''lost'', item_category = ''Bags & Wallets'',
      item_title = ''Blue Backpack'', item_description = ''left in the library'',
      item_location = ''Library'', item_date = ''2024-05-01'', item_imageUrl = None,
      item_userId = ''B'', item_status = ''active'', item_createdAt = 200\<rparr>"

definition board0 :: store where
  "board0 =
     \<lparr>users = [(''A'', ann)], items = [(''i1'', backpack)], conversations = [],
      messages = [], userItem = [(''B:i1'', ''i1'')], userConversation = []\<rparr>"

definition chat1 :: conversation where
  "chat1 =
     \<lparr>conv_id = ''A_B_i1'', conv_itemId = ''i1'', conv_participants = [''A'', ''B''],
      conv_createdAt = 1000, conv_lastMessageAt = 1000\<rparr>"

text \<open>The board after Ann has contacted the owner about the backpack.\<close>

definition board1 :: store where
  "board1 =
     \<lparr>users = [(''A'', ann)], items = [(''i1'', backpack)],
      conversations = [(''A_B_i1'', chat1)], messages = [],
      userItem = [(''B:i1'', ''i1'')],
      userConversation = [(''A:A_B_i1'', ''A_B_i1''), (''B:A_B_i1'', ''A_B_i1'')]\<rparr>"

text \<open>Ann asks (clock 1500), the owner answers (clock 2000).\<close>

definition msg1 :: message where
  "msg1 =
     \<lparr>msg_id = ''A_B_i1:1500:u1'', msg_conversationId = ''A_B_i1'', msg_senderId = ''A'',
      msg_text = ''Is this yours?'', msg_createdAt = 1500\<rparr>"

definition msg2 :: message where
  "msg2 =
     \<lparr>msg_id = ''A_B_i1:2000:u2'', msg_conversationId = ''A_B_i1'', msg_senderId = ''B'',
      msg_text = ''Yes!'', msg_createdAt = 2000\<rparr>"


definition board3 :: store where
  "board3 =
     board1\<lparr>messages := [(''A_B_i1:1500:u1'', msg1), (''A_B_i1:2000:u2'', msg2)],
            conversations := [(''A_B_i1'', chat1\<lparr>conv_lastMessageAt := 2000\<rparr>)]\<rparr>"

definition question :: send_call where
  "question =
     \<lparr>call_userId = ''A'', call_text = ''Is this yours?'', call_dateNow = 1500,
      call_uuid = ''u1'', call_now = 1500\<rparr>"

definition answer :: send_call where
  "answer =
     \<lparr>call_userId = ''B'', call_text = ''Yes!'', call_dateNow = 2000,
      call_uuid = ''u2'', call_now = 2000\<rparr>"

text \<open>Two sends of Ann within one millisecond; the random part of the first id is the
  greater one.\<close>

definition burst :: "send_call list" where
  "burst =
     [\<lparr>call_userId = ''A'', call_text = ''one'', call_dateNow = 1500, call_uuid = ''b'',
       call_now = 1500\<rparr>,
      \<lparr>call_userId = ''A'', call_text = ''two'', call_dateNow = 1500, call_uuid = ''a'',
       call_now = 1500\<rparr>]"

section \<open>Properties\<close>

subsection \<open>The store adapter\<close>

lemma kv_get_set_same: "kv_get k (kv_set k v t) = Some v"
  by (simp add: kv_get_def kv_set_def update_conv')

lemma kv_get_set_other: "k' \<noteq> k \<Longrightarrow> kv_get k' (kv_set k v t) = kv_get k' t"
  by (simp add: kv_get_def kv_set_def update_conv')

lemma board1_chat1: "kv_get ''A_B_i1'' (conversations board1) = Some chat1"
  by (simp add: kv_get_def board1_def)

lemma board0_backpack: "kv_get ''i1'' (items board0) = Some backpack"
  by (simp add: kv_get_def board0_def)

lemma decimal_examples:
  "decimal 999 = ''999''" "decimal 1000 = ''1000''" "decimal 1001 = ''1001''"
  "decimal 1500 = ''1500''" "decimal 2000 = ''2000''"
  by code_simp+

subsection \<open>Sending\<close>

lemma send_participant:
  assumes "kv_get conversationId (conversations s) = Some conversation"
    and "userId \<in> set (conv_participants conversation)"
  shows "send userId conversationId text dateNow uuid now s =
    (Inr \<lparr>msg_id = conversationId @ '':'' @ decimal dateNow @ '':'' @ uuid,
           msg_conversationId = conversationId, msg_senderId = userId,
           msg_text = text, msg_createdAt = now\<rparr>,
     s\<lparr>messages :=
          kv_set (conversationId @ '':'' @ decimal dateNow @ '':'' @ uuid)
            \<lparr>msg_id = conversationId @ '':'' @ decimal dateNow @ '':'' @ uuid,
             msg_conversationId = conversationId, msg_senderId = userId,
             msg_text = text, msg_createdAt = now\<rparr>
            (messages s),
        conversations :=
          kv_set conversationId (conversation\<lparr>conv_lastMessageAt := now\<rparr>)
            (conversations s)\<rparr>)"
  using assms by (simp add: send_def Let_def)

text \<open>
  C6. A send by a caller who is not among the participants of the (existing) conversation
  answers 403 and leaves the whole store as it was: no message row is written and the
  conversation row is not touched.
\<close>

theorem send_forbidden:
  assumes "kv_get conversationId (conversations s) = Some conversation"
    and "userId \<notin> set (conv_participants conversation)"
  shows "send userId conversationId text dateNow uuid now s =
    (Inl (403, ''Unauthorized - Not a participant''), s)"
  using assms by (simp add: send_def)

theorem send_forbidden_witness:
  "kv_get ''A_B_i1'' (conversations board1) = Some chat1 \<and>
   ''C'' \<notin> set (conv_participants chat1) \<and>
   send ''C'' ''A_B_i1'' ''mine!'' 1500 ''u1'' 1500 board1 =
     (Inl (403, ''Unauthorized - Not a participant''), board1)"
proof -
  have stranger: "''C'' \<notin> set (conv_participants chat1)"
    by (simp add: chat1_def)
  show ?thesis
    using board1_chat1 stranger send_forbidden [OF board1_chat1 stranger] by simp
qed

text \<open>
  The handler never looks at \<open>text\<close>: for an existing conversation and a
  participant, a send with any text succeeds, and the message is persisted under its id
  with exactly that text.
\<close>

lemma send_accepts_any_text:
  assumes "kv_get conversationId (conversations s) = Some conversation"
    and "userId \<in> set (conv_participants conversation)"
  shows "\<exists>m s'. send userId conversationId text dateNow uuid now s = (Inr m, s') \<and>
           msg_text m = text \<and> kv_get (msg_id m) (messages s') = Some m"
  using send_participant [OF assms] by (simp add: kv_get_set_same)

text \<open>
  C1. A send whose text is empty or whitespace-only is to fail with status 400 and to
  persist nothing. The handler does not do so: it has no check of \<open>text\<close>, unlike
  \<open>POST /signup\<close> and \<open>POST /items\<close>, which answer 400 when a required field is
  empty. Ann sends the empty text, and then a text of three spaces, on her conversation:
  each time the answer is the message, not an error, and the message table gains the row.
\<close>

theorem send_blank_text_persisted:
  "fst (send ''A'' ''A_B_i1'' '''' 1500 ''u1'' 1500 board1) =
     Inr \<lparr>msg_id = ''A_B_i1:1500:u1'', msg_conversationId = ''A_B_i1'',
          msg_senderId = ''A'', msg_text = '''', msg_createdAt = 1500\<rparr> \<and>
   messages board1 = [] \<and>
   messages (snd (send ''A'' ''A_B_i1'' '''' 1500 ''u1'' 1500 board1)) =
     [(''A_B_i1:1500:u1'',
       \<lparr>msg_id = ''A_B_i1:1500:u1'', msg_conversationId = ''A_B_i1'',
        msg_senderId = ''A'', msg_text = '''', msg_createdAt = 1500\<rparr>)] \<and>
   fst (send ''A'' ''A_B_i1'' ''   '' 2000 ''u2'' 2000 board1) =
     Inr \<lparr>msg_id = ''A_B_i1:2000:u2'', msg_conversationId = ''A_B_i1'',
          msg_senderId = ''A'', msg_text = ''   '', msg_createdAt = 2000\<rparr> \<and>
   messages (snd (send ''A'' ''A_B_i1'' ''   '' 2000 ''u2'' 2000 board1)) =
     [(''A_B_i1:2000:u2'',
       \<lparr>msg_id = ''A_B_i1:2000:u2'', msg_conversationId = ''A_B_i1'',
        msg_senderId = ''A'', msg_text = ''   '', msg_createdAt = 2000\<rparr>)]"
  by (simp add: send_def Let_def kv_get_def kv_set_def board1_def chat1_def decimal_examples)

text \<open>
  C2 (as the code has it). A successful send overwrites the conversation's
  \<open>lastMessageAt\<close> with the \<open>createdAt\<close> of the message it has just persisted; it
  takes no maximum. \<open>createdAt\<close> of the conversation stays. So \<open>lastMessageAt\<close> does
  not move backward exactly when the clock reading of the send is not before the stored
  value, and \<open>lastMessageAt \<ge> createdAt\<close> holds afterwards exactly when the reading is
  not before the conversation's \<open>createdAt\<close>.
\<close>

theorem send_overwrites_lastMessageAt:
  assumes "kv_get conversationId (conversations s) = Some conversation"
    and "userId \<in> set (conv_participants conversation)"
  shows "\<exists>m s' conversation'.
           send userId conversationId text dateNow uuid now s = (Inr m, s') \<and>
           kv_get (msg_id m) (messages s') = Some m \<and>
           kv_get conversationId (conversations s') = Some conversation' \<and>
           conv_lastMessageAt conversation' = msg_createdAt m \<and>
           msg_createdAt m = now \<and>
           conv_createdAt conversation' = conv_createdAt conversation \<and>
           (conv_lastMessageAt conversation \<le> conv_lastMessageAt conversation'
              \<longleftrightarrow> conv_lastMessageAt conversation \<le> now) \<and>
           (conv_createdAt conversation' \<le> conv_lastMessageAt conversation'
              \<longleftrightarrow> conv_createdAt conversation \<le> now)"
  using send_participant [OF assms] by (simp add: kv_get_set_same)

theorem send_overwrites_lastMessageAt_witness:
  "kv_get ''A_B_i1'' (conversations board1) = Some chat1 \<and>
   ''A'' \<in> set (conv_participants chat1) \<and>
   (\<exists>m s' conversation'.
      send ''A'' ''A_B_i1'' ''Is this yours?'' 1500 ''u1'' 1500 board1 = (Inr m, s') \<and>
      kv_get (msg_id m) (messages s') = Some m \<and>
      kv_get ''A_B_i1'' (conversations s') = Some conversation' \<and>
      conv_lastMessageAt conversation' = msg_createdAt m \<and>
      msg_createdAt m = 1500 \<and>
      conv_createdAt conversation' = conv_createdAt chat1 \<and>
      (conv_lastMessageAt chat1 \<le> conv_lastMessageAt conversation'
         \<longleftrightarrow> conv_lastMessageAt chat1 \<le> 1500) \<and>
      (conv_createdAt conversation' \<le> conv_lastMessageAt conversation'
         \<longleftrightarrow> conv_createdAt chat1 \<le> 1500))"
proof -
  have member: "''A'' \<in> set (conv_participants chat1)"
    by (simp add: chat1_def)
  show ?thesis
    using board1_chat1 member
      send_overwrites_lastMessageAt [OF board1_chat1 member, of "''Is this yours?''" 1500 "''u1''" 1500]
    by simp
qed

text \<open>The claim as stated fails: the conversation of the board has \<open>createdAt\<close> and
  \<open>lastMessageAt\<close> 1000; a send whose clock reads 999 (a clock set back, or another
  instance's clock) succeeds and leaves \<open>lastMessageAt\<close> at 999, below both.\<close>

theorem send_lastMessageAt_backward_counterexample:
  "map_option conv_lastMessageAt (kv_get ''A_B_i1'' (conversations board1)) = Some 1000 \<and>
   map_option conv_createdAt (kv_get ''A_B_i1'' (conversations board1)) = Some 1000 \<and>
   fst (send ''A'' ''A_B_i1'' ''hello'' 999 ''u1'' 999 board1) =
     Inr \<lparr>msg_id = ''A_B_i1:999:u1'', msg_conversationId = ''A_B_i1'',
          msg_senderId = ''A'', msg_text = ''hello'', msg_createdAt = 999\<rparr> \<and>
   map_option conv_lastMessageAt
     (kv_get ''A_B_i1''
        (conversations (snd (send ''A'' ''A_B_i1'' ''hello'' 999 ''u1'' 999 board1)))) = Some 999 \<and>
   map_option conv_createdAt
     (kv_get ''A_B_i1''
        (conversations (snd (send ''A'' ''A_B_i1'' ''hello'' 999 ''u1'' 999 board1)))) = Some 1000"
  by (simp add: send_def Let_def kv_get_def kv_set_def board1_def chat1_def decimal_examples)

subsection \<open>Updating the status of an item\<close>

text \<open>
  C10. When the owner of an existing item sets its status, the answer and the row stored
  under the item's key are the old item with the new status: every other field (id, type,
  category, title, description, location, date, imageUrl, userId, createdAt) is as it was,
  no other table changes, and the status is taken as it comes, whatever the string.
\<close>

theorem updateItemStatus_only_status:
  assumes "kv_get itemId (items s) = Some item"
    and "item_userId item = userId"
  shows "\<exists>updated.
           updateItemStatus userId itemId status s =
             (Inr updated, s\<lparr>items := kv_set itemId updated (items s)\<rparr>) \<and>
           kv_get itemId (items (snd (updateItemStatus userId itemId status s))) = Some updated \<and>
           item_status updated = status \<and>
           item_id updated = item_id item \<and>
           item_type updated = item_type item \<and>
           item_category updated = item_category item \<and>
           item_title updated = item_title item \<and>
           item_description updated = item_description item \<and>
           item_location updated = item_location item \<and>
           item_date updated = item_date item \<and>
           item_imageUrl updated = item_imageUrl item \<and>
           item_userId updated = item_userId item \<and>
           item_createdAt updated = item_createdAt item"
  using assms by (simp add: updateItemStatus_def Let_def kv_get_set_same)

theorem updateItemStatus_only_status_witness:
  "kv_get ''i1'' (items board0) = Some backpack \<and>
   item_userId backpack = ''B'' \<and>
   (\<exists>updated.
      updateItemStatus ''B'' ''i1'' ''whatever'' board0 =
        (Inr updated, board0\<lparr>items := kv_set ''i1'' updated (items board0)\<rparr>) \<and>
      kv_get ''i1'' (items (snd (updateItemStatus ''B'' ''i1'' ''whatever'' board0))) = Some updated \<and>
      item_status updated = ''whatever'' \<and>
      item_id updated = item_id backpack \<and>
      item_type updated = item_type backpack \<and>
      item_category updated = item_category backpack \<and>
      item_title updated = item_title backpack \<and>
      item_description updated = item_description backpack \<and>
      item_location updated = item_location backpack \<and>
      item_date updated = item_date backpack \<and>
      item_imageUrl updated = item_imageUrl backpack \<and>
      item_userId updated = item_userId backpack \<and>
      item_createdAt updated = item_createdAt backpack)"
proof -
  have owner: "item_userId backpack = ''B''"
    by (simp add: backpack_def)
  show ?thesis
    using board0_backpack owner
      updateItemStatus_only_status [OF board0_backpack owner, of "''whatever''"]
    by simp
qed

subsection \<open>Starting a conversation\<close>

lemma sort_pair: "sort [a, b] = (if a \<le> b then [a, b] else [b, a])"
  by simp

lemma startConversation_existing:
  assumes "kv_get itemId (items s) = Some item"
    and "kv_get (conversationIdFor userId (item_userId item) itemId) (conversations s) = Some existing"
  shows "startConversation userId itemId now1 now2 s = (Inr existing, s)"
  using assms by (simp add: startConversation_def conversationIdFor_def Let_def)

lemma startConversation_new:
  assumes "kv_get itemId (items s) = Some item"
    and "kv_get (conversationIdFor userId (item_userId item) itemId) (conversations s) = None"
  shows "startConversation userId itemId now1 now2 s =
    (Inr \<lparr>conv_id = conversationIdFor userId (item_userId item) itemId,
           conv_itemId = itemId,
           conv_participants = sort [userId, item_userId item],
           conv_createdAt = now1, conv_lastMessageAt = now2\<rparr>,
     s\<lparr>conversations :=
          kv_set (conversationIdFor userId (item_userId item) itemId)
            \<lparr>conv_id = conversationIdFor userId (item_userId item) itemId,
             conv_itemId = itemId,
             conv_participants = sort [userId, item_userId item],
             conv_createdAt = now1, conv_lastMessageAt = now2\<rparr>
            (conversations s),
        userConversation :=
          kv_set (item_userId item @ '':'' @ conversationIdFor userId (item_userId item) itemId)
            (conversationIdFor userId (item_userId item) itemId)
            (kv_set (userId @ '':'' @ conversationIdFor userId (item_userId item) itemId)
               (conversationIdFor userId (item_userId item) itemId)
               (userConversation s))\<rparr>)"
  using assms by (simp add: startConversation_def conversationIdFor_def Let_def)

lemma board0_no_chat:
  "kv_get (conversationIdFor ''A'' (item_userId backpack) ''i1'') (conversations board0) = None"
  by (simp add: kv_get_def board0_def)

lemma count_list_distinct: "distinct xs \<Longrightarrow> x \<in> set xs \<Longrightarrow> count_list xs x = 1"
  by (induction xs) (auto simp: count_list_0_iff)

lemma kv_set_one_row:
  assumes "distinct (map fst t)"
  shows "count_list (map fst (kv_set k v t)) k = 1"
proof -
  have "distinct (map fst (kv_set k v t))"
    using assms by (simp add: kv_set_def distinct_update)
  moreover have "k \<in> set (map fst (kv_set k v t))"
    by (simp add: kv_set_def dom_update)
  ultimately show ?thesis
    by (rule count_list_distinct)
qed

lemma kv_get_one_row:
  assumes "distinct (map fst t)" and "kv_get k t = Some v"
  shows "count_list (map fst t) k = 1"
proof -
  have "(k, v) \<in> set t"
    using assms(2) by (simp add: kv_get_def map_of_SomeD)
  then have "k \<in> set (map fst t)"
    by force
  with assms(1) show ?thesis
    by (rule count_list_distinct)
qed

lemma board1_backpack: "kv_get ''i1'' (items board1) = Some backpack"
  by (simp add: kv_get_def board1_def)

lemma board1_has_chat:
  "kv_get (conversationIdFor ''A'' (item_userId backpack) ''i1'') (conversations board1) = Some chat1"
  by (simp add: kv_get_def board1_def conversationIdFor_def backpack_def)

text \<open>
  C5. For an item that exists, a caller who starts the conversation twice (whatever the
  clock reads at each call) gets the same conversation record, hence the same id, both
  times; the second call changes nothing in the store, so it writes no timestamp and no
  index entry; and the conversation table, whose keys are unique, holds exactly one row
  under the derived id. A conversation stored under the derived id before the first call
  is returned as it is stored and the store is left as it is; otherwise the first call
  stores the record with the derived id, the item, the sorted participants and the two
  clock readings of that call, and writes the two index entries and nothing else.
\<close>

theorem startConversation_twice:
  assumes "kv_get itemId (items s) = Some item"
    and "distinct (map fst (conversations s))"
  shows "\<exists>c s1.
           startConversation userId itemId now1 now2 s = (Inr c, s1) \<and>
           startConversation userId itemId now3 now4 s1 = (Inr c, s1) \<and>
           kv_get (conversationIdFor userId (item_userId item) itemId) (conversations s1) = Some c \<and>
           count_list (map fst (conversations s1))
             (conversationIdFor userId (item_userId item) itemId) = 1 \<and>
           (\<forall>existing.
              kv_get (conversationIdFor userId (item_userId item) itemId) (conversations s)
                = Some existing \<longrightarrow>
              c = existing \<and> s1 = s) \<and>
           (kv_get (conversationIdFor userId (item_userId item) itemId) (conversations s) = None
              \<longrightarrow>
              c = \<lparr>conv_id = conversationIdFor userId (item_userId item) itemId,
                   conv_itemId = itemId,
                   conv_participants = sort [userId, item_userId item],
                   conv_createdAt = now1, conv_lastMessageAt = now2\<rparr> \<and>
              s1 = s\<lparr>conversations :=
                        kv_set (conversationIdFor userId (item_userId item) itemId) c
                          (conversations s),
                      userConversation :=
                        kv_set (item_userId item @ '':'' @
                                  conversationIdFor userId (item_userId item) itemId)
                          (conversationIdFor userId (item_userId item) itemId)
                          (kv_set (userId @ '':'' @
                                     conversationIdFor userId (item_userId item) itemId)
                             (conversationIdFor userId (item_userId item) itemId)
                             (userConversation s))\<rparr>)"
proof (cases "kv_get (conversationIdFor userId (item_userId item) itemId) (conversations s)")
  case None
  let ?cid = "conversationIdFor userId (item_userId item) itemId"
  let ?c = "\<lparr>conv_id = ?cid, conv_itemId = itemId,
             conv_participants = sort [userId, item_userId item],
             conv_createdAt = now1, conv_lastMessageAt = now2\<rparr>"
  let ?s1 = "s\<lparr>conversations := kv_set ?cid ?c (conversations s),
               userConversation :=
                 kv_set (item_userId item @ '':'' @ ?cid) ?cid
                   (kv_set (userId @ '':'' @ ?cid) ?cid (userConversation s))\<rparr>"
  have first: "startConversation userId itemId now1 now2 s = (Inr ?c, ?s1)"
    by (rule startConversation_new [OF assms(1) None])
  have stored: "kv_get ?cid (conversations ?s1) = Some ?c"
    by (simp add: kv_get_set_same)
  have item1: "kv_get itemId (items ?s1) = Some item"
    by (simp add: assms(1))
  have second: "startConversation userId itemId now3 now4 ?s1 = (Inr ?c, ?s1)"
    by (rule startConversation_existing [OF item1 stored])
  have one: "count_list (map fst (conversations ?s1)) ?cid = 1"
    by (simp add: kv_set_one_row [OF assms(2)])
  from first second stored one None show ?thesis
    by (intro exI [of _ ?c] exI [of _ ?s1]) simp
next
  case (Some existing)
  let ?cid = "conversationIdFor userId (item_userId item) itemId"
  have "startConversation userId itemId now1 now2 s = (Inr existing, s)"
    and "startConversation userId itemId now3 now4 s = (Inr existing, s)"
    by (rule startConversation_existing [OF assms(1) Some])+
  moreover have "count_list (map fst (conversations s)) ?cid = 1"
    by (rule kv_get_one_row [OF assms(2) Some])
  ultimately show ?thesis
    using Some by (intro exI [of _ existing] exI [of _ s]) simp
qed


theorem startConversation_twice_witness:
  "kv_get ''i1'' (items board0) = Some backpack \<and>
   distinct (map fst (conversations board0)) \<and>
   kv_get (conversationIdFor ''A'' (item_userId backpack) ''i1'') (conversations board0) = None \<and>
   (\<exists>s1.
      startConversation ''A'' ''i1'' 1000 1000 board0 = (Inr chat1, s1) \<and>
      startConversation ''A'' ''i1'' 2000 2001 s1 = (Inr chat1, s1) \<and>
      kv_get ''A_B_i1'' (conversations s1) = Some chat1 \<and>
      count_list (map fst (conversations s1)) ''A_B_i1'' = 1) \<and>
   kv_get ''i1'' (items board1) = Some backpack \<and>
   distinct (map fst (conversations board1)) \<and>
   kv_get (conversationIdFor ''A'' (item_userId backpack) ''i1'') (conversations board1) = Some chat1 \<and>
   startConversation ''A'' ''i1'' 3000 3001 board1 = (Inr chat1, board1) \<and>
   count_list (map fst (conversations board1)) ''A_B_i1'' = 1"
proof -
  have cid: "conversationIdFor ''A'' (item_userId backpack) ''i1'' = ''A_B_i1''"
    by (simp add: conversationIdFor_def backpack_def)
  have new: "\<lparr>conv_id = ''A_B_i1'',
              conv_itemId = ''i1'',
              conv_participants = sort [''A'', item_userId backpack],
              conv_createdAt = 1000, conv_lastMessageAt = 1000\<rparr> = chat1"
    by (simp add: backpack_def chat1_def)
  have keys0: "distinct (map fst (conversations board0))"
    by (simp add: board0_def)
  have keys1: "distinct (map fst (conversations board1))"
    by (simp add: board1_def)
  from startConversation_twice [OF board0_backpack keys0, of "''A''" 1000 1000 2000 2001]
    board0_no_chat
  have fresh: "\<exists>s1.
      startConversation ''A'' ''i1'' 1000 1000 board0 = (Inr chat1, s1) \<and>
      startConversation ''A'' ''i1'' 2000 2001 s1 = (Inr chat1, s1) \<and>
      kv_get ''A_B_i1'' (conversations s1) = Some chat1 \<and>
      count_list (map fst (conversations s1)) ''A_B_i1'' = 1"
    unfolding cid new by blast
  from startConversation_twice [OF board1_backpack keys1, of "''A''" 3000 3001 3000 3001]
    board1_has_chat
  have again: "startConversation ''A'' ''i1'' 3000 3001 board1 = (Inr chat1, board1) \<and>
      count_list (map fst (conversations board1)) ''A_B_i1'' = 1"
    unfolding cid by auto
  from fresh again board0_backpack keys0 board0_no_chat board1_backpack keys1 board1_has_chat
  show ?thesis
    by blast
qed

text \<open>
  C7 (as the code has it). A conversation that \<open>POST /conversations\<close> creates is
  stored under its id with a participants list of exactly two entries, the caller and the
  owner of the item in ascending order. The two entries are different exactly when the
  caller is not the owner: the handler has no check that keeps an owner from starting a
  conversation on the owner's own item.
\<close>

theorem startConversation_participants:
  assumes "kv_get itemId (items s) = Some item"
    and "kv_get (conversationIdFor userId (item_userId item) itemId) (conversations s) = None"
  shows "\<exists>c s1.
           startConversation userId itemId now1 now2 s = (Inr c, s1) \<and>
           kv_get (conv_id c) (conversations s1) = Some c \<and>
           length (conv_participants c) = 2 \<and>
           set (conv_participants c) = {userId, item_userId item} \<and>
           sorted (conv_participants c) \<and>
           (distinct (conv_participants c) \<longleftrightarrow> userId \<noteq> item_userId item)"
proof -
  have "sorted (sort [userId, item_userId item])"
    by (rule sorted_sort)
  moreover have "set (sort [userId, item_userId item]) = {userId, item_userId item}"
    by (simp only: set_sort) simp
  moreover have "distinct (sort [userId, item_userId item]) \<longleftrightarrow> userId \<noteq> item_userId item"
    by (simp only: distinct_sort) simp
  moreover have "length (sort [userId, item_userId item]) = 2"
    by (simp only: length_sort) simp
  ultimately show ?thesis
    using startConversation_new [OF assms] by (simp add: kv_get_set_same)
qed

theorem startConversation_participants_witness:
  "kv_get ''i1'' (items board0) = Some backpack \<and>
   kv_get (conversationIdFor ''A'' (item_userId backpack) ''i1'') (conversations board0) = None \<and>
   (\<exists>c s1.
      startConversation ''A'' ''i1'' 1000 1000 board0 = (Inr c, s1) \<and>
      kv_get (conv_id c) (conversations s1) = Some c \<and>
      length (conv_participants c) = 2 \<and>
      set (conv_participants c) = {''A'', item_userId backpack} \<and>
      sorted (conv_participants c) \<and>
      (distinct (conv_participants c) \<longleftrightarrow> ''A'' \<noteq> item_userId backpack))"
  using board0_backpack board0_no_chat
    startConversation_participants [OF board0_backpack board0_no_chat, of 1000 1000]
  by blast

text \<open>The claim as stated fails: the owner \<open>B\<close> of the backpack starts a conversation
  about it; the conversation is created and stored with the participants \<open>B, B\<close>.\<close>

theorem startConversation_self_counterexample:
  "fst (startConversation ''B'' ''i1'' 1000 1000 board0) =
     Inr \<lparr>conv_id = ''B_B_i1'', conv_itemId = ''i1'', conv_participants = [''B'', ''B''],
          conv_createdAt = 1000, conv_lastMessageAt = 1000\<rparr> \<and>
   kv_get ''B_B_i1'' (conversations (snd (startConversation ''B'' ''i1'' 1000 1000 board0))) =
     Some \<lparr>conv_id = ''B_B_i1'', conv_itemId = ''i1'', conv_participants = [''B'', ''B''],
           conv_createdAt = 1000, conv_lastMessageAt = 1000\<rparr> \<and>
   \<not> distinct [''B'', ''B'']"
  by (simp add: startConversation_def Let_def kv_get_def kv_set_def board0_def backpack_def)

text \<open>
  C8 (as the code has it). A conversation that \<open>POST /conversations\<close> creates is
  stored with \<open>createdAt\<close> the first and \<open>lastMessageAt\<close> the second of the two
  clock readings the handler takes, so the two fields are equal exactly when the readings
  are; and the user-to-conversation index holds an entry for the caller and one for the
  owner, that is, for every participant.
\<close>

theorem startConversation_creates:
  assumes "kv_get itemId (items s) = Some item"
    and "kv_get (conversationIdFor userId (item_userId item) itemId) (conversations s) = None"
  shows "\<exists>c s1.
           startConversation userId itemId now1 now2 s = (Inr c, s1) \<and>
           conv_id c = conversationIdFor userId (item_userId item) itemId \<and>
           kv_get (conv_id c) (conversations s1) = Some c \<and>
           conv_createdAt c = now1 \<and>
           conv_lastMessageAt c = now2 \<and>
           (conv_createdAt c = conv_lastMessageAt c \<longleftrightarrow> now1 = now2) \<and>
           kv_get (userId @ '':'' @ conv_id c) (userConversation s1) = Some (conv_id c) \<and>
           kv_get (item_userId item @ '':'' @ conv_id c) (userConversation s1) = Some (conv_id c) \<and>
           list_all (\<lambda>p. kv_get (p @ '':'' @ conv_id c) (userConversation s1) = Some (conv_id c))
             (conv_participants c)"
proof -
  let ?cid = "conversationIdFor userId (item_userId item) itemId"
  let ?t = "kv_set (item_userId item @ '':'' @ ?cid) ?cid
              (kv_set (userId @ '':'' @ ?cid) ?cid (userConversation s))"
  have owner: "kv_get (item_userId item @ '':'' @ ?cid) ?t = Some ?cid"
    by (simp add: kv_get_set_same)
  have caller: "kv_get (userId @ '':'' @ ?cid) ?t = Some ?cid"
    by (cases "userId = item_userId item") (simp_all add: kv_get_set_same kv_get_set_other)
  have both: "list_all (\<lambda>p. kv_get (p @ '':'' @ ?cid) ?t = Some ?cid)
                (sort [userId, item_userId item])"
    using owner caller by (simp add: sort_pair del: sort_key_simps)
  show ?thesis
    using startConversation_new [OF assms, of now1 now2] owner caller both
    by (simp add: kv_get_set_same)
qed

theorem startConversation_creates_witness:
  "kv_get ''i1'' (items board0) = Some backpack \<and>
   kv_get (conversationIdFor ''A'' (item_userId backpack) ''i1'') (conversations board0) = None \<and>
   (\<exists>c s1.
      startConversation ''A'' ''i1'' 1000 1001 board0 = (Inr c, s1) \<and>
      conv_id c = conversationIdFor ''A'' (item_userId backpack) ''i1'' \<and>
      kv_get (conv_id c) (conversations s1) = Some c \<and>
      conv_createdAt c = 1000 \<and>
      conv_lastMessageAt c = 1001 \<and>
      (conv_createdAt c = conv_lastMessageAt c \<longleftrightarrow> (1000::nat) = 1001) \<and>
      kv_get (''A'' @ '':'' @ conv_id c) (userConversation s1) = Some (conv_id c) \<and>
      kv_get (item_userId backpack @ '':'' @ conv_id c) (userConversation s1) = Some (conv_id c) \<and>
      list_all (\<lambda>p. kv_get (p @ '':'' @ conv_id c) (userConversation s1) = Some (conv_id c))
        (conv_participants c))"
  using board0_backpack board0_no_chat
    startConversation_creates [OF board0_backpack board0_no_chat, of 1000 1001]
  by blast

text \<open>The claim as stated fails: the clock moves from 1000 to 1001 between the two
  \<open>new Date()\<close> of the handler; the conversation is stored with \<open>createdAt\<close> 1000
  and \<open>lastMessageAt\<close> 1001.\<close>

theorem startConversation_two_readings_counterexample:
  "kv_get ''A_B_i1'' (conversations (snd (startConversation ''A'' ''i1'' 1000 1001 board0))) =
     Some \<lparr>conv_id = ''A_B_i1'', conv_itemId = ''i1'', conv_participants = [''A'', ''B''],
           conv_createdAt = 1000, conv_lastMessageAt = 1001\<rparr> \<and>
   (1000::nat) \<noteq> 1001"
  by (simp add: startConversation_def Let_def kv_get_def kv_set_def board0_def backpack_def)

subsection \<open>Message ids\<close>























subsection \<open>Reading the messages of a conversation\<close>

lemma kv_set_fresh: "k \<notin> fst ` set t \<Longrightarrow> kv_set k v t = t @ [(k, v)]"
  unfolding kv_set_def by (induction t) auto

lemma send_call_participant:
  assumes "kv_get conversationId (conversations s) = Some conversation"
    and "call_userId r \<in> set (conv_participants conversation)"
  shows "snd (send (call_userId r) conversationId (call_text r) (call_dateNow r)
               (call_uuid r) (call_now r) s) =
         s\<lparr>messages :=
              kv_set (msg_id (sent_message conversationId r)) (sent_message conversationId r)
                (messages s),
            conversations :=
              kv_set conversationId (conversation\<lparr>conv_lastMessageAt := call_now r\<rparr>)
                (conversations s)\<rparr>"
  using send_participant [OF assms] by (simp add: sent_message_def)

lemma sends_tables:
  assumes "kv_get conversationId (conversations s) = Some conversation"
    and "\<forall>r \<in> set rs. call_userId r \<in> set (conv_participants conversation)"
    and "\<forall>r \<in> set rs. msg_id (sent_message conversationId r) \<notin> fst ` set (messages s)"
    and "distinct (map (\<lambda>r. msg_id (sent_message conversationId r)) rs)"
  shows "messages (sends conversationId rs s) = messages s @ message_rows conversationId rs \<and>
         users (sends conversationId rs s) = users s \<and>
         (\<exists>c'. kv_get conversationId (conversations (sends conversationId rs s)) = Some c' \<and>
               conv_participants c' = conv_participants conversation)"
  using assms
proof (induction rs arbitrary: s conversation)
  case Nil
  then show ?case by (simp add: message_rows_def)
next
  case (Cons r rs)
  let ?m = "sent_message conversationId r"
  let ?c1 = "conversation\<lparr>conv_lastMessageAt := call_now r\<rparr>"
  let ?s1 = "snd (send (call_userId r) conversationId (call_text r) (call_dateNow r)
               (call_uuid r) (call_now r) s)"
  have s1: "?s1 = s\<lparr>messages := kv_set (msg_id ?m) ?m (messages s),
                    conversations := kv_set conversationId ?c1 (conversations s)\<rparr>"
    using Cons.prems(1,2) by (intro send_call_participant) simp_all
  have fresh: "msg_id ?m \<notin> fst ` set (messages s)"
    using Cons.prems(3) by simp
  have msgs1: "messages ?s1 = messages s @ [(msg_id ?m, ?m)]"
    by (simp add: s1 kv_set_fresh [OF fresh])
  have conv1: "kv_get conversationId (conversations ?s1) = Some ?c1"
    by (simp add: s1 kv_get_set_same)
  have auth1: "\<forall>r \<in> set rs. call_userId r \<in> set (conv_participants ?c1)"
    using Cons.prems(2) by simp
  have fresh1: "\<forall>r' \<in> set rs. msg_id (sent_message conversationId r') \<notin> fst ` set (messages ?s1)"
    using Cons.prems(3,4) by (auto simp: msgs1 image_iff)
  have dist1: "distinct (map (\<lambda>r. msg_id (sent_message conversationId r)) rs)"
    using Cons.prems(4) by simp
  have users1: "users ?s1 = users s"
    by (simp add: s1)
  from Cons.IH [OF conv1 auth1 fresh1 dist1]
  show ?case
    by (simp add: msgs1 users1 message_rows_def)
qed

lemma prefix_scan_empty:
  assumes "kv_getByPrefix (\<lambda>rows. rows) p t = []"
  shows "filter (\<lambda>(k, v). prefix p k) t = []" and "\<And>k. prefix p k \<Longrightarrow> k \<notin> fst ` set t"
proof -
  show e: "filter (\<lambda>(k, v). prefix p k) t = []"
    using assms by (simp add: kv_getByPrefix_def)
  fix k assume "prefix p k"
  with e show "k \<notin> fst ` set t"
    by (auto simp: filter_empty_conv)
qed

lemma sent_message_prefix: "prefix (conversationId @ '':'') (msg_id (sent_message conversationId r))"
  by (simp add: sent_message_def)

lemma filter_message_rows:
  "filter (\<lambda>(k, v). prefix (conversationId @ '':'') k) (message_rows conversationId rs) =
     message_rows conversationId rs"
  by (simp add: message_rows_def filter_id_conv sent_message_prefix del: append_assoc)

lemma withSenderName_createdAt: "msg_createdAt (withSenderName us m) = msg_createdAt m"
  by (simp add: withSenderName_def)


lemma read_after_sends:
  assumes perm: "\<forall>rows. mset (scan rows) = mset rows"
    and conv: "kv_get conversationId (conversations s) = Some conversation"
    and auth: "\<forall>r \<in> set rs. call_userId r \<in> set (conv_participants conversation)"
    and reader: "userId \<in> set (conv_participants conversation)"
    and fresh: "kv_getByPrefix (\<lambda>rows. rows) (conversationId @ '':'') (messages s) = []"
    and ids: "distinct (map (\<lambda>r. msg_id (sent_message conversationId r)) rs)"
  shows "listMessages scan userId conversationId (sends conversationId rs s) =
           Inr (map (withSenderName (users s))
                  (sort_key msg_createdAt
                     (map snd (scan (message_rows conversationId rs)))))"
proof -
  have keys: "\<forall>r \<in> set rs. msg_id (sent_message conversationId r) \<notin> fst ` set (messages s)"
    using prefix_scan_empty(2) [OF fresh] sent_message_prefix by blast
  note tables = sends_tables [OF conv auth keys ids]
  from tables obtain c' where
    c': "kv_get conversationId (conversations (sends conversationId rs s)) = Some c'"
      "conv_participants c' = conv_participants conversation"
    by blast
  have rows: "filter (\<lambda>(k, v). prefix (conversationId @ '':'') k)
                (messages (sends conversationId rs s)) = message_rows conversationId rs"
    using tables prefix_scan_empty(1) [OF fresh] by (simp add: filter_message_rows)
  have users_eq: "users (sends conversationId rs s) = users s"
    using tables by simp
  show ?thesis
    using reader by (simp add: listMessages_def c' kv_getByPrefix_def rows users_eq)
qed


lemma strictly_increasing_keys:
  fixes f :: "'a \<Rightarrow> nat"
  assumes "sorted_wrt (<) (map f xs)"
  shows "sorted (map f xs)" and "inj_on f (set xs)"
proof -
  show "sorted (map f xs)"
    using assms by (simp add: strict_sorted_iff)
  have "distinct (map f xs)"
    using assms by (simp add: strict_sorted_iff)
  then show "inj_on f (set xs)"
    by (simp add: distinct_map)
qed

lemma scan_after_sends:
  assumes conv: "kv_get conversationId (conversations s) = Some conversation"
    and auth: "\<forall>r \<in> set rs. call_userId r \<in> set (conv_participants conversation)"
    and fresh: "kv_getByPrefix (\<lambda>rows. rows) (conversationId @ '':'') (messages s) = []"
    and ids: "distinct (map (\<lambda>r. msg_id (sent_message conversationId r)) rs)"
  shows "kv_getByPrefix scan (conversationId @ '':'') (messages (sends conversationId rs s)) =
           map snd (scan (message_rows conversationId rs))"
proof -
  have keys: "\<forall>r \<in> set rs. msg_id (sent_message conversationId r) \<notin> fst ` set (messages s)"
    using prefix_scan_empty(2) [OF fresh] sent_message_prefix by blast
  have msgs: "messages (sends conversationId rs s) = messages s @ message_rows conversationId rs"
    using sends_tables [OF conv auth keys ids] by simp
  show ?thesis
    by (simp add: kv_getByPrefix_def msgs prefix_scan_empty(1) [OF fresh] filter_message_rows)
qed

lemma filter_withSenderName:
  "filter (\<lambda>m. msg_createdAt m = k) (map (withSenderName us) xs) =
     map (withSenderName us) (filter (\<lambda>m. msg_createdAt m = k) xs)"
  by (simp add: filter_map comp_def withSenderName_createdAt)

text \<open>
  C3 (as the code has it). Take a conversation with no message rows yet, any list of sends
  on it by participants (with pairwise different ids), and a participant who then reads
  the messages. Whatever order the store's prefix scan returns the rows in, the read
  succeeds and returns exactly the messages sent, each once and with its sender's name,
  in ascending order of \<open>createdAt\<close>. The sort compares \<open>createdAt\<close> only and is
  stable: for every value of \<open>createdAt\<close>, the messages listed with that value are the
  messages of the scan with that value, in the order of the scan; the id plays no part.
  When \<open>createdAt\<close> strictly increases along the sends, the read returns the messages
  in the exact order sent.
\<close>

theorem listMessages_after_sends:
  assumes perm: "\<forall>rows. mset (scan rows) = mset rows"
    and conv: "kv_get conversationId (conversations s) = Some conversation"
    and auth: "\<forall>r \<in> set rs. call_userId r \<in> set (conv_participants conversation)"
    and reader: "userId \<in> set (conv_participants conversation)"
    and fresh: "kv_getByPrefix (\<lambda>rows. rows) (conversationId @ '':'') (messages s) = []"
    and ids: "distinct (map (\<lambda>r. msg_id (sent_message conversationId r)) rs)"
  shows "\<exists>listed.
           listMessages scan userId conversationId (sends conversationId rs s) = Inr listed \<and>
           mset listed =
             mset (map (withSenderName (users s)) (map (sent_message conversationId) rs)) \<and>
           sorted (map msg_createdAt listed) \<and>
           (\<forall>k. filter (\<lambda>m. msg_createdAt m = k) listed =
                  map (withSenderName (users s))
                    (filter (\<lambda>m. msg_createdAt m = k)
                       (kv_getByPrefix scan (conversationId @ '':'')
                          (messages (sends conversationId rs s))))) \<and>
           (sorted_wrt (<) (map call_now rs) \<longrightarrow>
              listed = map (withSenderName (users s)) (map (sent_message conversationId) rs))"
proof -
  let ?sent = "map (sent_message conversationId) rs"
  let ?scanned = "map snd (scan (message_rows conversationId rs))"
  let ?listed = "map (withSenderName (users s)) (sort_key msg_createdAt ?scanned)"
  have result: "listMessages scan userId conversationId (sends conversationId rs s) = Inr ?listed"
    by (rule read_after_sends [OF assms])
  have scanned: "kv_getByPrefix scan (conversationId @ '':'')
      (messages (sends conversationId rs s)) = ?scanned"
    by (rule scan_after_sends [OF conv auth fresh ids])
  have "mset ?scanned = image_mset snd (mset (message_rows conversationId rs))"
    using perm by simp
  also have "\<dots> = mset ?sent"
    by (simp add: message_rows_def comp_def flip: mset_map)
  finally have same: "mset ?scanned = mset ?sent" .
  have "mset ?listed =
      image_mset (withSenderName (users s)) (mset (sort_key msg_createdAt ?scanned))"
    by (simp only: mset_map)
  also have "\<dots> = image_mset (withSenderName (users s)) (mset ?sent)"
    by (simp only: mset_sort same)
  also have "\<dots> = mset (map (withSenderName (users s)) ?sent)"
    by (simp only: mset_map)
  finally have all: "mset ?listed = mset (map (withSenderName (users s)) ?sent)" .
  have "map msg_createdAt ?listed = map msg_createdAt (sort_key msg_createdAt ?scanned)"
    by (simp add: withSenderName_createdAt comp_def)
  then have ordered: "sorted (map msg_createdAt ?listed)"
    by (simp only: sorted_sort_key)
  have ties: "filter (\<lambda>m. msg_createdAt m = k) ?listed =
      map (withSenderName (users s))
        (filter (\<lambda>m. msg_createdAt m = k)
           (kv_getByPrefix scan (conversationId @ '':'')
              (messages (sends conversationId rs s))))" for k
    by (simp only: scanned filter_withSenderName sort_key_stable)
  have exact: "?listed = map (withSenderName (users s)) ?sent"
    if inc: "sorted_wrt (<) (map call_now rs)"
  proof -
    have keys: "map msg_createdAt ?sent = map call_now rs"
      by (simp add: sent_message_def comp_def)
    have strict: "sorted_wrt (<) (map msg_createdAt ?sent)"
      using inc by (simp only: keys)
    have "inj_on msg_createdAt (set ?sent)"
      by (rule strictly_increasing_keys(2) [OF strict])
    then have "inj_on msg_createdAt (set ?scanned)"
      using same by (simp only: mset_eq_setD [OF same])
    then have "sort_key msg_createdAt ?scanned = ?sent"
      using same strictly_increasing_keys(1) [OF strict] by (intro sort_key_inj_key_eq)
    then show ?thesis
      by simp
  qed
  from result all ordered ties exact show ?thesis
    by blast
qed


theorem listMessages_after_sends_witness:
  "(\<forall>rows :: message table. mset (rev rows) = mset rows) \<and>
   kv_get ''A_B_i1'' (conversations board1) = Some chat1 \<and>
   call_userId question \<in> set (conv_participants chat1) \<and>
   call_userId answer \<in> set (conv_participants chat1) \<and>
   list_all (\<lambda>r. call_userId r \<in> set (conv_participants chat1)) burst \<and>
   ''A'' \<in> set (conv_participants chat1) \<and>
   kv_getByPrefix (\<lambda>rows. rows) (''A_B_i1'' @ '':'') (messages board1) = [] \<and>
   distinct (map (\<lambda>r. msg_id (sent_message ''A_B_i1'' r)) [question, answer]) \<and>
   distinct (map (\<lambda>r. msg_id (sent_message ''A_B_i1'' r)) burst) \<and>
   sorted_wrt (<) (map call_now [question, answer]) \<and>
   (\<exists>listed.
      listMessages rev ''A'' ''A_B_i1'' (sends ''A_B_i1'' [question, answer] board1) = Inr listed \<and>
      mset listed =
        mset (map (withSenderName (users board1))
               (map (sent_message ''A_B_i1'') [question, answer])) \<and>
      sorted (map msg_createdAt listed) \<and>
      (\<forall>k. filter (\<lambda>m. msg_createdAt m = k) listed =
             map (withSenderName (users board1))
               (filter (\<lambda>m. msg_createdAt m = k)
                  (kv_getByPrefix rev (''A_B_i1'' @ '':'')
                     (messages (sends ''A_B_i1'' [question, answer] board1))))) \<and>
      listed =
        map (withSenderName (users board1)) (map (sent_message ''A_B_i1'') [question, answer])) \<and>
   (\<exists>listed.
      listMessages rev ''A'' ''A_B_i1'' (sends ''A_B_i1'' burst board1) = Inr listed \<and>
      mset listed =
        mset (map (withSenderName (users board1)) (map (sent_message ''A_B_i1'') burst)) \<and>
      sorted (map msg_createdAt listed) \<and>
      filter (\<lambda>m. msg_createdAt m = 1500) listed =
        map (withSenderName (users board1))
          (filter (\<lambda>m. msg_createdAt m = 1500)
             (kv_getByPrefix rev (''A_B_i1'' @ '':'')
                (messages (sends ''A_B_i1'' burst board1)))) \<and>
      map msg_text listed = [''two'', ''one''])"
proof -
  have perm: "\<forall>rows :: message table. mset (rev rows) = mset rows"
    by simp
  have senders: "call_userId question \<in> set (conv_participants chat1)"
      "call_userId answer \<in> set (conv_participants chat1)"
    by (simp_all add: question_def answer_def chat1_def)
  then have auth: "\<forall>r \<in> set [question, answer]. call_userId r \<in> set (conv_participants chat1)"
    by simp
  have senders': "list_all (\<lambda>r. call_userId r \<in> set (conv_participants chat1)) burst"
    by (simp add: burst_def chat1_def)
  then have auth': "\<forall>r \<in> set burst. call_userId r \<in> set (conv_participants chat1)"
    by (simp add: list_all_iff)
  have reader: "''A'' \<in> set (conv_participants chat1)"
    by (simp add: chat1_def)
  have fresh: "kv_getByPrefix (\<lambda>rows. rows) (''A_B_i1'' @ '':'') (messages board1) = []"
    by (simp add: kv_getByPrefix_def board1_def)
  have ids: "distinct (map (\<lambda>r. msg_id (sent_message ''A_B_i1'' r)) [question, answer])"
    by (simp add: sent_message_def question_def answer_def decimal_examples)
  have ids': "distinct (map (\<lambda>r. msg_id (sent_message ''A_B_i1'' r)) burst)"
    by (simp add: sent_message_def burst_def decimal_examples)
  have inc: "sorted_wrt (<) (map call_now [question, answer])"
    by (simp add: question_def answer_def)
  have texts: "listMessages rev ''A'' ''A_B_i1'' (sends ''A_B_i1'' burst board1) = Inr listed
      \<Longrightarrow> map msg_text listed = [''two'', ''one'']" for listed
    by (auto simp: listMessages_def send_def Let_def kv_getByPrefix_def withSenderName_def
        kv_get_def kv_set_def burst_def board1_def chat1_def ann_def decimal_examples)
  from listMessages_after_sends [OF perm board1_chat1 auth reader fresh ids] inc
  have first: "\<exists>listed.
      listMessages rev ''A'' ''A_B_i1'' (sends ''A_B_i1'' [question, answer] board1) = Inr listed \<and>
      mset listed =
        mset (map (withSenderName (users board1))
               (map (sent_message ''A_B_i1'') [question, answer])) \<and>
      sorted (map msg_createdAt listed) \<and>
      (\<forall>k. filter (\<lambda>m. msg_createdAt m = k) listed =
             map (withSenderName (users board1))
               (filter (\<lambda>m. msg_createdAt m = k)
                  (kv_getByPrefix rev (''A_B_i1'' @ '':'')
                     (messages (sends ''A_B_i1'' [question, answer] board1))))) \<and>
      listed =
        map (withSenderName (users board1)) (map (sent_message ''A_B_i1'') [question, answer])"
    by blast
  from listMessages_after_sends [OF perm board1_chat1 auth' reader fresh ids'] texts
  have second: "\<exists>listed.
      listMessages rev ''A'' ''A_B_i1'' (sends ''A_B_i1'' burst board1) = Inr listed \<and>
      mset listed =
        mset (map (withSenderName (users board1)) (map (sent_message ''A_B_i1'') burst)) \<and>
      sorted (map msg_createdAt listed) \<and>
      filter (\<lambda>m. msg_createdAt m = 1500) listed =
        map (withSenderName (users board1))
          (filter (\<lambda>m. msg_createdAt m = 1500)
             (kv_getByPrefix rev (''A_B_i1'' @ '':'')
                (messages (sends ''A_B_i1'' burst board1)))) \<and>
      map msg_text listed = [''two'', ''one'']"
    by blast
  from first second perm board1_chat1 senders senders' reader fresh ids ids' inc show ?thesis
    by blast
qed

text \<open>The claim as stated fails: Ann sends \<open>one\<close> and then \<open>two\<close> within the
  millisecond 1500, with the UUIDs \<open>b\<close> and \<open>a\<close>. Both messages have the same
  \<open>createdAt\<close>, and the second has the smaller id. When the store returns rows in the
  order written, the read returns \<open>one, two\<close>: the ties are not in the order of the
  ids. When the store returns them the other way round, the read returns
  \<open>two, one\<close>: not the order sent.\<close>

theorem listMessages_same_millisecond_counterexample:
  "listMessages id ''A'' ''A_B_i1'' (sends ''A_B_i1'' burst board1) =
     Inr [\<lparr>msg_id = ''A_B_i1:1500:b'', msg_conversationId = ''A_B_i1'', msg_senderId = ''A'',
           msg_text = ''one'', msg_createdAt = 1500, senderName = ''Ann''\<rparr>,
          \<lparr>msg_id = ''A_B_i1:1500:a'', msg_conversationId = ''A_B_i1'', msg_senderId = ''A'',
           msg_text = ''two'', msg_createdAt = 1500, senderName = ''Ann''\<rparr>] \<and>
   listMessages rev ''A'' ''A_B_i1'' (sends ''A_B_i1'' burst board1) =
     Inr [\<lparr>msg_id = ''A_B_i1:1500:a'', msg_conversationId = ''A_B_i1'', msg_senderId = ''A'',
           msg_text = ''two'', msg_createdAt = 1500, senderName = ''Ann''\<rparr>,
          \<lparr>msg_id = ''A_B_i1:1500:b'', msg_conversationId = ''A_B_i1'', msg_senderId = ''A'',
           msg_text = ''one'', msg_createdAt = 1500, senderName = ''Ann''\<rparr>] \<and>
   ''A_B_i1:1500:a'' < ''A_B_i1:1500:b''"
  by (simp add: listMessages_def send_def Let_def kv_getByPrefix_def withSenderName_def
      kv_get_def kv_set_def burst_def board1_def chat1_def ann_def decimal_examples)

subsection \<open>Joining users into the reads\<close>

lemma truncate_withSenderName: "message.truncate (withSenderName us m) = m"
  by (simp add: message.truncate_def withSenderName_def)

lemma senderName_withSenderName:
  "senderName (withSenderName us m) =
     (case kv_get (msg_senderId m) us of
        None \<Rightarrow> ''Unknown''
      | Some u \<Rightarrow> if user_name u = [] then ''Unknown'' else user_name u)"
  by (simp add: withSenderName_def)

lemma joinConversation_None:
  "joinConversation s userId c = None \<longleftrightarrow> kv_get c (conversations s) = None"
  by (simp add: joinConversation_def Let_def split: option.splits)

lemma joinConversation_Some:
  assumes "kv_get c (conversations s) = Some conv"
  shows "\<exists>j. joinConversation s userId c = Some j \<and> conversation.truncate j = conv \<and>
           conv_item j = kv_get (conv_itemId conv) (items s) \<and>
           conv_otherUser j =
             kv_get (case find (\<lambda>i. i \<noteq> userId) (conv_participants conv) of
                       None \<Rightarrow> ''undefined'' | Some i \<Rightarrow> i) (users s)"
  using assms by (simp add: joinConversation_def Let_def conversation.truncate_def)

lemma joined_rows:
  "map conversation.truncate
     (map the (filter (\<lambda>c. c \<noteq> None) (map (joinConversation s userId) ids))) =
   List.map_filter (\<lambda>c. kv_get c (conversations s)) ids"
proof (induction ids)
  case Nil
  then show ?case by (simp add: map_filter_simps)
next
  case (Cons c ids)
  show ?case
  proof (cases "kv_get c (conversations s)")
    case None
    then have "joinConversation s userId c = None"
      by (simp add: joinConversation_None)
    with None Cons.IH show ?thesis
      by (simp add: map_filter_simps)
  next
    case (Some conv)
    from joinConversation_Some [OF Some] obtain j where
      "joinConversation s userId c = Some j" "conversation.truncate j = conv"
      by blast
    with Some Cons.IH show ?thesis
      by (simp add: map_filter_simps)
  qed
qed

lemma joined_fields:
  assumes "j \<in> set (listConversations scan userId s)"
  shows "conv_item j = kv_get (conv_itemId j) (items s) \<and>
         conv_otherUser j =
           kv_get (case find (\<lambda>i. i \<noteq> userId) (conv_participants j) of
                     None \<Rightarrow> ''undefined'' | Some i \<Rightarrow> i) (users s)"
proof -
  from assms obtain c where "joinConversation s userId c = Some j"
    by (auto simp: listConversations_def Let_def)
  then show ?thesis
    by (auto simp: joinConversation_def Let_def split: option.splits)
qed

lemma descending:
  fixes f :: "'a \<Rightarrow> nat"
  assumes "sorted (map (\<lambda>x. - int (f x)) xs)"
  shows "sorted (rev (map f xs))"
  using assms by (simp add: sorted_wrt_rev sorted_map sorted_wrt_map flip: rev_map)

text \<open>
  C9 (as the code has it). Reading the messages of a conversation (as a participant)
  succeeds and returns every message of the scan, in ascending order of \<open>createdAt\<close>,
  each carrying its sender's name, or \<open>Unknown\<close> when the sender has no user row (or
  an empty name). Reading the conversations of a user returns every conversation of the
  user's index that resolves, most recent message first, whether or not the other
  participant has a user row; each entry carries as \<open>item\<close> and \<open>otherUser\<close> what
  the lookups return, which is nothing when the row is missing: this handler puts no
  placeholder in.
\<close>

theorem reads_survive_missing_users:
  assumes "kv_get conversationId (conversations s) = Some conversation"
    and "userId \<in> set (conv_participants conversation)"
  shows "(\<exists>listed.
            listMessages scan userId conversationId s = Inr listed \<and>
            map message.truncate listed =
              sort_key msg_createdAt (kv_getByPrefix scan (conversationId @ '':'') (messages s)) \<and>
            list_all (\<lambda>m. senderName m =
                        (case kv_get (msg_senderId m) (users s) of
                           None \<Rightarrow> ''Unknown''
                         | Some u \<Rightarrow> if user_name u = [] then ''Unknown'' else user_name u))
              listed) \<and>
         mset (map conversation.truncate (listConversations scan' reader s)) =
           mset (List.map_filter (\<lambda>c. kv_get c (conversations s))
                   (kv_getByPrefix scan' (reader @ '':'') (userConversation s))) \<and>
         sorted (rev (map conv_lastMessageAt (listConversations scan' reader s))) \<and>
         list_all (\<lambda>j. conv_item j = kv_get (conv_itemId j) (items s) \<and>
                     conv_otherUser j =
                       kv_get (case find (\<lambda>i. i \<noteq> reader) (conv_participants j) of
                                 None \<Rightarrow> ''undefined'' | Some i \<Rightarrow> i) (users s))
           (listConversations scan' reader s)"
proof -
  let ?msgs = "sort_key msg_createdAt (kv_getByPrefix scan (conversationId @ '':'') (messages s))"
  have read: "listMessages scan userId conversationId s =
      Inr (map (withSenderName (users s)) ?msgs)"
    using assms by (simp add: listMessages_def Let_def)
  have kept: "map message.truncate (map (withSenderName (users s)) ?msgs) = ?msgs"
    by (simp add: comp_def truncate_withSenderName)
  have names: "list_all (\<lambda>m. senderName m =
                        (case kv_get (msg_senderId m) (users s) of
                           None \<Rightarrow> ''Unknown''
                         | Some u \<Rightarrow> if user_name u = [] then ''Unknown'' else user_name u))
      (map (withSenderName (users s)) ?msgs)"
    by (simp add: list_all_iff withSenderName_def)
  have rows: "mset (map conversation.truncate (listConversations scan' reader s)) =
      mset (List.map_filter (\<lambda>c. kv_get c (conversations s))
              (kv_getByPrefix scan' (reader @ '':'') (userConversation s)))"
    by (simp only: listConversations_def Let_def mset_map mset_sort flip: joined_rows [of s reader])
  have order: "sorted (rev (map conv_lastMessageAt (listConversations scan' reader s)))"
    by (rule descending) (simp only: listConversations_def Let_def sorted_sort_key)
  have fields: "list_all (\<lambda>j. conv_item j = kv_get (conv_itemId j) (items s) \<and>
                     conv_otherUser j =
                       kv_get (case find (\<lambda>i. i \<noteq> reader) (conv_participants j) of
                                 None \<Rightarrow> ''undefined'' | Some i \<Rightarrow> i) (users s))
           (listConversations scan' reader s)"
    using joined_fields [of _ scan' reader s] by (simp add: list_all_iff)
  from read kept names rows order fields show ?thesis
    by blast
qed


lemma board3_chat: "kv_get ''A_B_i1'' (conversations board3) = Some (chat1\<lparr>conv_lastMessageAt := 2000\<rparr>)"
  by (simp add: kv_get_def board3_def)

theorem reads_survive_missing_users_witness:
  "kv_get ''A_B_i1'' (conversations board3) = Some (chat1\<lparr>conv_lastMessageAt := 2000\<rparr>) \<and>
   ''A'' \<in> set (conv_participants (chat1\<lparr>conv_lastMessageAt := 2000\<rparr>)) \<and>
   kv_get ''B'' (users board3) = None \<and>
   (\<exists>listed.
      listMessages (\<lambda>rows. rows) ''A'' ''A_B_i1'' board3 = Inr listed \<and>
      map message.truncate listed =
        sort_key msg_createdAt
          (kv_getByPrefix (\<lambda>rows. rows) (''A_B_i1'' @ '':'') (messages board3)) \<and>
      list_all (\<lambda>m. senderName m =
                  (case kv_get (msg_senderId m) (users board3) of
                     None \<Rightarrow> ''Unknown''
                   | Some u \<Rightarrow> if user_name u = [] then ''Unknown'' else user_name u))
        listed \<and>
      map message.truncate listed = [msg1, msg2] \<and>
      map senderName listed = [''Ann'', ''Unknown'']) \<and>
   mset (map conversation.truncate (listConversations (\<lambda>rows. rows) ''A'' board3)) =
     mset (List.map_filter (\<lambda>c. kv_get c (conversations board3))
             (kv_getByPrefix (\<lambda>rows. rows) (''A'' @ '':'') (userConversation board3))) \<and>
   sorted (rev (map conv_lastMessageAt (listConversations (\<lambda>rows. rows) ''A'' board3))) \<and>
   list_all (\<lambda>j. conv_item j = kv_get (conv_itemId j) (items board3) \<and>
               conv_otherUser j =
                 kv_get (case find (\<lambda>i. i \<noteq> ''A'') (conv_participants j) of
                           None \<Rightarrow> ''undefined'' | Some i \<Rightarrow> i) (users board3))
     (listConversations (\<lambda>rows. rows) ''A'' board3) \<and>
   map conversation.truncate (listConversations (\<lambda>rows. rows) ''A'' board3) =
     [chat1\<lparr>conv_lastMessageAt := 2000\<rparr>] \<and>
   map conv_otherUser (listConversations (\<lambda>rows. rows) ''A'' board3) = [None]"
proof -
  have reader: "''A'' \<in> set (conv_participants (chat1\<lparr>conv_lastMessageAt := 2000\<rparr>))"
    by (simp add: chat1_def)
  have missing: "kv_get ''B'' (users board3) = None"
    by (simp add: kv_get_def board3_def board1_def)
  have listed: "listMessages (\<lambda>rows. rows) ''A'' ''A_B_i1'' board3 = Inr listed \<Longrightarrow>
      map message.truncate listed = [msg1, msg2] \<and>
      map senderName listed = [''Ann'', ''Unknown'']" for listed
    by (auto simp: listMessages_def Let_def kv_getByPrefix_def withSenderName_def kv_get_def
        message.truncate_def board3_def board1_def chat1_def msg1_def msg2_def ann_def)
  have convs: "map conversation.truncate (listConversations (\<lambda>rows. rows) ''A'' board3) =
        [chat1\<lparr>conv_lastMessageAt := 2000\<rparr>]"
      "map conv_otherUser (listConversations (\<lambda>rows. rows) ''A'' board3) = [None]"
    by (simp_all add: listConversations_def joinConversation_def Let_def kv_getByPrefix_def
        kv_get_def conversation.truncate_def board3_def board1_def chat1_def)
  from reads_survive_missing_users
    [where scan = "\<lambda>rows. rows" and scan' = "\<lambda>rows. rows" and reader = "''A''",
      OF board3_chat reader] listed
  show ?thesis
    using board3_chat reader missing convs by blast
qed

text \<open>The claim as stated fails: the owner \<open>B\<close> has no user row on the board; where Ann
  reads her conversations, the entry of her conversation with \<open>B\<close> has no
  \<open>otherUser\<close> at all, neither a user nor a placeholder named \<open>Unknown\<close>.\<close>

theorem listConversations_missing_user_counterexample:
  "kv_get ''B'' (users board3) = None \<and>
   listConversations id ''A'' board3 =
     [\<lparr>conv_id = ''A_B_i1'', conv_itemId = ''i1'', conv_participants = [''A'', ''B''],
       conv_createdAt = 1000, conv_lastMessageAt = 2000,
       conv_item = Some backpack, conv_otherUser = None\<rparr>]"
  by (simp add: listConversations_def joinConversation_def Let_def kv_getByPrefix_def
      kv_get_def board3_def board1_def chat1_def)

end
